theory Spec2Isabelle
  imports Main
begin

section \<open>Data model of KeyBindingsManager.ts\<close>

text \<open>
  The part of a DOM \<^verbatim>\<open>KeyboardEvent\<close> that the matcher reads: the key label and the
  four modifier flags. The fields carry the prefix \<^verbatim>\<open>ev_\<close> because \<^verbatim>\<open>KeyCombo\<close>
  has fields of the same names.
\<close>

record KeyboardEvent =
  ev_key :: string
  ev_altKey :: bool
  ev_ctrlKey :: bool
  ev_metaKey :: bool
  ev_shiftKey :: bool

text \<open>
  \<^verbatim>\<open>KeyCombo\<close>: every field is optional in the source (\<^verbatim>\<open>key?: string\<close>,
  \<^verbatim>\<open>ctrlOrCmd?: boolean\<close>, ...), so an absent field is \<open>None\<close>.
\<close>

record KeyCombo =
  key :: "string option"
  ctrlOrCmd :: "bool option"
  altKey :: "bool option"
  ctrlKey :: "bool option"
  metaKey :: "bool option"
  shiftKey :: "bool option"

record 'a KeyBinding =
  action :: 'a
  keyCombo :: KeyCombo

text \<open>The \<^verbatim>\<open>??\<close> operator: the left operand unless it is absent.\<close>

definition nullish :: "'a option \<Rightarrow> 'a \<Rightarrow> 'a" where
  "nullish x d = (case x of None \<Rightarrow> d | Some v \<Rightarrow> v)"

text \<open>Truthiness of an optional boolean, as tested by \<^verbatim>\<open>if (combo.ctrlOrCmd)\<close>.\<close>

definition truthy :: "bool option \<Rightarrow> bool" where
  "truthy x = (case x of None \<Rightarrow> False | Some b \<Rightarrow> b)"

section \<open>Lower-casing of key labels\<close>

text \<open>
  \<^verbatim>\<open>String.prototype.toLowerCase\<close> is a builtin of the language, not code of this
  repository, and its full Unicode table is not reproduced here. The matcher below takes
  the lower-casing function as its first argument, so every general statement holds for
  whatever function the runtime supplies. \<open>toLowerCase\<close> is that function on labels made
  of ASCII characters (\<^verbatim>\<open>A\<close>..\<^verbatim>\<open>Z\<close> go to \<^verbatim>\<open>a\<close>..\<^verbatim>\<open>z\<close>, everything else stays);
  it is used to run the matcher on concrete events.
\<close>

definition toLowerCase_char :: "char \<Rightarrow> char" where
  "toLowerCase_char c =
     (let n = (of_char c :: nat)
      in if 65 \<le> n \<and> n \<le> 90 then char_of (n + 32) else c)"

definition toLowerCase :: "string \<Rightarrow> string" where
  "toLowerCase s = map toLowerCase_char s"

section \<open>isKeyComboMatch\<close>

text \<open>
  The function follows the source statement by statement: the key-label test with its
  two early returns, the four \<^verbatim>\<open>??\<close> defaults, the \<^verbatim>\<open>ctrlOrCmd\<close> branch with its
  Mac and non-Mac tests, and the plain four-flag test.
\<close>

definition isKeyComboMatch ::
    "(string \<Rightarrow> string) \<Rightarrow> KeyboardEvent \<Rightarrow> KeyCombo \<Rightarrow> bool \<Rightarrow> bool" where
  "isKeyComboMatch lower ev combo onMac =
     (if (case key combo of
            None \<Rightarrow> False
          | Some k \<Rightarrow>
              (if ev_shiftKey ev then lower (ev_key ev) \<noteq> lower k
               else ev_key ev \<noteq> k))
      then False
      else
        (let comboCtrl = nullish (ctrlKey combo) False;
             comboAlt = nullish (altKey combo) False;
             comboShift = nullish (shiftKey combo) False;
             comboMeta = nullish (metaKey combo) False
         in
           if truthy (ctrlOrCmd combo) then
             (if onMac then
                (if \<not> ev_metaKey ev
                    \<or> ev_ctrlKey ev \<noteq> comboCtrl
                    \<or> ev_altKey ev \<noteq> comboAlt
                    \<or> ev_shiftKey ev \<noteq> comboShift
                 then False else True)
              else
                (if \<not> ev_ctrlKey ev
                    \<or> ev_metaKey ev \<noteq> comboMeta
                    \<or> ev_altKey ev \<noteq> comboAlt
                    \<or> ev_shiftKey ev \<noteq> comboShift
                 then False else True))
           else
             (if ev_metaKey ev \<noteq> comboMeta
                 \<or> ev_ctrlKey ev \<noteq> comboCtrl
                 \<or> ev_altKey ev \<noteq> comboAlt
                 \<or> ev_shiftKey ev \<noteq> comboShift
              then False else True)))"

section \<open>Actions, providers and the manager\<close>

text \<open>The five action enumerations, one per UI context.\<close>

datatype MessageComposerAction =
    Send | SelectPrevSendHistory | SelectNextSendHistory | EditPrevMessage
  | EditNextMessage | CancelEditing | FormatBold | FormatItalics | FormatQuote
  | EditUndo | EditRedo | NewLine | MoveCursorToStart | MoveCursorToEnd

datatype AutocompleteAction =
    ApplySelection | Cancel | PrevSelection | NextSelection

datatype RoomListAction =
    ClearSearch | PrevRoom | NextRoom | SelectRoom | CollapseSection | ExpandSection

datatype RoomAction =
    FocusRoomSearch | ScrollUp | RoomScrollDown | DismissReadMarker
  | JumpToOldestUnread | UploadFile | FocusSearch | JumpToFirstMessage
  | JumpToLatestMessage

datatype NavigationAction =
    ToggleRoomSidePanel | ToggleUserMenu | ToggleShortCutDialog | GoToHome
  | SelectPrevRoom | SelectNextRoom | SelectPrevUnreadRoom | SelectNextUnreadRoom

text \<open>
  \<^verbatim>\<open>KeyBindingGetter<T> = () => KeyBinding<T>[]\<close>: a getter is called with no
  argument and yields the provider's current list.
\<close>

type_synonym 'a KeyBindingGetter = "unit \<Rightarrow> 'a KeyBinding list"

record IKeyBindingsProvider =
  getMessageComposerBindings :: "MessageComposerAction KeyBindingGetter"
  getAutocompleteBindings :: "AutocompleteAction KeyBindingGetter"
  getRoomListBindings :: "RoomListAction KeyBindingGetter"
  getRoomBindings :: "RoomAction KeyBindingGetter"
  getNavigationBindings :: "NavigationAction KeyBindingGetter"

record KeyBindingsManager =
  bindingsProviders :: "IKeyBindingsProvider list"

text \<open>
  \<^verbatim>\<open>getAction\<close>: the \<^verbatim>\<open>for\<close> loop over the getters is the recursion over the list;
  \<^verbatim>\<open>bindings.find(...)\<close> is \<open>find\<close>; \<^verbatim>\<open>undefined\<close> is \<open>None\<close>. The platform
  flag \<^verbatim>\<open>isMac\<close> is a constant imported from the module \<^verbatim>\<open>./Keyboard\<close>; it is an
  argument here, so the statements below hold on either platform.
\<close>

fun getAction ::
    "(string \<Rightarrow> string) \<Rightarrow> bool \<Rightarrow> 'a KeyBindingGetter list \<Rightarrow> KeyboardEvent \<Rightarrow> 'a option" where
  "getAction lower isMac [] ev = None"
| "getAction lower isMac (getter # getters) ev =
     (let bindings = getter ()
      in case find (\<lambda>it. isKeyComboMatch lower ev (keyCombo it) isMac) bindings of
           Some binding \<Rightarrow> Some (action binding)
         | None \<Rightarrow> getAction lower isMac getters ev)"

definition getMessageComposerAction ::
    "(string \<Rightarrow> string) \<Rightarrow> bool \<Rightarrow> KeyBindingsManager \<Rightarrow> KeyboardEvent
      \<Rightarrow> MessageComposerAction option" where
  "getMessageComposerAction lower isMac this ev =
     getAction lower isMac (map getMessageComposerBindings (bindingsProviders this)) ev"

definition getAutocompleteAction ::
    "(string \<Rightarrow> string) \<Rightarrow> bool \<Rightarrow> KeyBindingsManager \<Rightarrow> KeyboardEvent
      \<Rightarrow> AutocompleteAction option" where
  "getAutocompleteAction lower isMac this ev =
     getAction lower isMac (map getAutocompleteBindings (bindingsProviders this)) ev"

definition getRoomListAction ::
    "(string \<Rightarrow> string) \<Rightarrow> bool \<Rightarrow> KeyBindingsManager \<Rightarrow> KeyboardEvent
      \<Rightarrow> RoomListAction option" where
  "getRoomListAction lower isMac this ev =
     getAction lower isMac (map getRoomListBindings (bindingsProviders this)) ev"

definition getRoomAction ::
    "(string \<Rightarrow> string) \<Rightarrow> bool \<Rightarrow> KeyBindingsManager \<Rightarrow> KeyboardEvent
      \<Rightarrow> RoomAction option" where
  "getRoomAction lower isMac this ev =
     getAction lower isMac (map getRoomBindings (bindingsProviders this)) ev"

definition getNavigationAction ::
    "(string \<Rightarrow> string) \<Rightarrow> bool \<Rightarrow> KeyBindingsManager \<Rightarrow> KeyboardEvent
      \<Rightarrow> NavigationAction option" where
  "getNavigationAction lower isMac this ev =
     getAction lower isMac (map getNavigationBindings (bindingsProviders this)) ev"

section \<open>Concrete events, combos and providers\<close>

text \<open>Inputs on which the functions above are run in the closed theorems below.\<close>

definition keyEvent :: "string \<Rightarrow> bool \<Rightarrow> bool \<Rightarrow> bool \<Rightarrow> bool \<Rightarrow> KeyboardEvent" where
  "keyEvent k alt ctrl meta shift =
     \<lparr>ev_key = k, ev_altKey = alt, ev_ctrlKey = ctrl, ev_metaKey = meta, ev_shiftKey = shift\<rparr>"

text \<open>The combo \<^verbatim>\<open>{}\<close>: no field set.\<close>

definition emptyCombo :: KeyCombo where
  "emptyCombo =
     \<lparr>key = None, ctrlOrCmd = None, altKey = None, ctrlKey = None, metaKey = None,
      shiftKey = None\<rparr>"

text \<open>The combo \<^verbatim>\<open>{ key: k }\<close>: only the key field set.\<close>

definition keyOnlyCombo :: "string \<Rightarrow> KeyCombo" where
  "keyOnlyCombo k = emptyCombo\<lparr>key := Some k\<rparr>"

text \<open>A provider that has bindings in the navigation context only.\<close>

definition navigationProvider :: "NavigationAction KeyBinding list \<Rightarrow> IKeyBindingsProvider" where
  "navigationProvider bs =
     \<lparr>getMessageComposerBindings = (\<lambda>_. []),
      getAutocompleteBindings = (\<lambda>_. []),
      getRoomListBindings = (\<lambda>_. []),
      getRoomBindings = (\<lambda>_. []),
      getNavigationBindings = (\<lambda>_. bs)\<rparr>"

definition navBinding :: "NavigationAction \<Rightarrow> KeyCombo \<Rightarrow> NavigationAction KeyBinding" where
  "navBinding a c = \<lparr>action = a, keyCombo = c\<rparr>"

text \<open>The combo \<^verbatim>\<open>{ key: 'k', ctrlOrCmd: true }\<close> and the event Ctrl+k.\<close>

definition comboCtrlOrCmdK :: KeyCombo where
  "comboCtrlOrCmdK = (keyOnlyCombo ''k'')\<lparr>ctrlOrCmd := Some True\<rparr>"

definition eventCtrlK :: KeyboardEvent where
  "eventCtrlK = keyEvent ''k'' False True False False"

text \<open>
  Three providers that bind the same combo to three different navigation actions, and
  one that binds another key.
\<close>

definition firstProvider :: IKeyBindingsProvider where
  "firstProvider = navigationProvider [navBinding ToggleUserMenu comboCtrlOrCmdK]"

definition secondProvider :: IKeyBindingsProvider where
  "secondProvider = navigationProvider [navBinding GoToHome comboCtrlOrCmdK]"

definition thirdProvider :: IKeyBindingsProvider where
  "thirdProvider = navigationProvider [navBinding ToggleShortCutDialog comboCtrlOrCmdK]"

definition otherProvider :: IKeyBindingsProvider where
  "otherProvider = navigationProvider [navBinding ToggleRoomSidePanel (keyOnlyCombo ''j'')]"

text \<open>
  A provider whose navigation list has one binding for another key followed by two
  bindings that both match Ctrl+k outside a Mac.
\<close>

definition doubleProvider :: IKeyBindingsProvider where
  "doubleProvider =
     navigationProvider
       [navBinding ToggleRoomSidePanel (keyOnlyCombo ''j''),
        navBinding GoToHome comboCtrlOrCmdK,
        navBinding ToggleUserMenu ((keyOnlyCombo ''k'')\<lparr>ctrlKey := Some True\<rparr>)]"

text \<open>A provider whose navigation list has three bindings that all match Ctrl+k outside a Mac.\<close>

definition tripleProvider :: IKeyBindingsProvider where
  "tripleProvider =
     navigationProvider
       [navBinding ToggleShortCutDialog comboCtrlOrCmdK,
        navBinding GoToHome comboCtrlOrCmdK,
        navBinding ToggleUserMenu ((keyOnlyCombo ''k'')\<lparr>ctrlKey := Some True\<rparr>)]"

section \<open>Basic facts about the matcher\<close>

lemma nullish_simps [simp]: "nullish None d = d" "nullish (Some v) d = v"
  by (simp_all add: nullish_def)

lemma truthy_iff: "truthy x \<longleftrightarrow> x = Some True"
  by (cases x) (simp_all add: truthy_def)

text \<open>Without a key in the combo only the modifier flags are looked at.\<close>

lemma isKeyComboMatch_no_key:
  assumes "key combo = None"
  shows "isKeyComboMatch lower ev combo onMac \<longleftrightarrow>
     (if ctrlOrCmd combo = Some True
      then (if onMac
            then ev_metaKey ev \<and> ev_ctrlKey ev = nullish (ctrlKey combo) False
            else ev_ctrlKey ev \<and> ev_metaKey ev = nullish (metaKey combo) False)
      else ev_metaKey ev = nullish (metaKey combo) False
           \<and> ev_ctrlKey ev = nullish (ctrlKey combo) False)
     \<and> ev_altKey ev = nullish (altKey combo) False
     \<and> ev_shiftKey ev = nullish (shiftKey combo) False"
  using assms by (auto simp add: isKeyComboMatch_def truthy_iff Let_def)

text \<open>With a key in the combo the label test comes first, then the same flag tests.\<close>

lemma isKeyComboMatch_split_key:
  assumes "key combo = Some k"
  shows "isKeyComboMatch lower ev combo onMac \<longleftrightarrow>
     (if ev_shiftKey ev then lower (ev_key ev) = lower k else ev_key ev = k)
     \<and> isKeyComboMatch lower ev (combo\<lparr>key := None\<rparr>) onMac"
  using assms by (simp add: isKeyComboMatch_def)

lemma isKeyComboMatch_iff:
  "isKeyComboMatch lower ev combo onMac \<longleftrightarrow>
     (case key combo of
        None \<Rightarrow> True
      | Some k \<Rightarrow> if ev_shiftKey ev then lower (ev_key ev) = lower k else ev_key ev = k)
     \<and> (if ctrlOrCmd combo = Some True
        then (if onMac
              then ev_metaKey ev \<and> ev_ctrlKey ev = nullish (ctrlKey combo) False
              else ev_ctrlKey ev \<and> ev_metaKey ev = nullish (metaKey combo) False)
        else ev_metaKey ev = nullish (metaKey combo) False
             \<and> ev_ctrlKey ev = nullish (ctrlKey combo) False)
     \<and> ev_altKey ev = nullish (altKey combo) False
     \<and> ev_shiftKey ev = nullish (shiftKey combo) False"
proof (cases "key combo")
  case None
  then show ?thesis by (simp add: isKeyComboMatch_no_key)
next
  case (Some k)
  have "key (combo\<lparr>key := None\<rparr>) = None" by simp
  from isKeyComboMatch_no_key [OF this] Some show ?thesis
    by (simp add: isKeyComboMatch_split_key)
qed

lemma toLowerCase_examples:
  "toLowerCase ''A'' = ''a''" "toLowerCase ''a'' = ''a''" "toLowerCase ''k'' = ''k''"
  "toLowerCase ''K'' = ''k''" "toLowerCase ''Escape'' = ''escape''"
  by code_simp+

lemmas example_defs = keyEvent_def keyOnlyCombo_def emptyCombo_def

section \<open>The ctrlOrCmd branch\<close>

text \<open>
  Claim C1. For a combo with \<^verbatim>\<open>ctrlOrCmd\<close> set true, a match on a Mac requires the
  event's meta modifier and requires the event's ctrl, alt and shift flags to equal the
  combo's \<^verbatim>\<open>ctrlKey\<close>, \<^verbatim>\<open>altKey\<close> and \<^verbatim>\<open>shiftKey\<close> (absent counts as false); a match
  on another platform requires the event's ctrl modifier and requires meta, alt and shift
  to equal the combo's \<^verbatim>\<open>metaKey\<close>, \<^verbatim>\<open>altKey\<close> and \<^verbatim>\<open>shiftKey\<close>. In particular
  ctrl without meta never matches on a Mac, and meta without ctrl never matches elsewhere.
\<close>

theorem isKeyComboMatch_ctrlOrCmd_only_if:
  assumes "ctrlOrCmd combo = Some True"
  shows "(isKeyComboMatch lower ev combo True \<longrightarrow>
            ev_metaKey ev
            \<and> ev_ctrlKey ev = nullish (ctrlKey combo) False
            \<and> ev_altKey ev = nullish (altKey combo) False
            \<and> ev_shiftKey ev = nullish (shiftKey combo) False)
       \<and> (isKeyComboMatch lower ev combo False \<longrightarrow>
            ev_ctrlKey ev
            \<and> ev_metaKey ev = nullish (metaKey combo) False
            \<and> ev_altKey ev = nullish (altKey combo) False
            \<and> ev_shiftKey ev = nullish (shiftKey combo) False)
       \<and> (ev_ctrlKey ev \<and> \<not> ev_metaKey ev \<longrightarrow> \<not> isKeyComboMatch lower ev combo True)
       \<and> (ev_metaKey ev \<and> \<not> ev_ctrlKey ev \<longrightarrow> \<not> isKeyComboMatch lower ev combo False)"
  using assms by (simp add: isKeyComboMatch_iff)

text \<open>
  The combo \<^verbatim>\<open>{key:'k', ctrlOrCmd:true}\<close> on a Mac: Cmd+k matches, Ctrl+k does not.
\<close>

theorem isKeyComboMatch_ctrlOrCmd_only_if_witness:
  "ctrlOrCmd ((keyOnlyCombo ''k'')\<lparr>ctrlOrCmd := Some True\<rparr>) = Some True
   \<and> isKeyComboMatch toLowerCase (keyEvent ''k'' False False True False)
        ((keyOnlyCombo ''k'')\<lparr>ctrlOrCmd := Some True\<rparr>) True
   \<and> ev_metaKey (keyEvent ''k'' False False True False)
   \<and> ev_ctrlKey (keyEvent ''k'' False True False False)
   \<and> \<not> ev_metaKey (keyEvent ''k'' False True False False)
   \<and> \<not> isKeyComboMatch toLowerCase (keyEvent ''k'' False True False False)
        ((keyOnlyCombo ''k'')\<lparr>ctrlOrCmd := Some True\<rparr>) True"
  using isKeyComboMatch_ctrlOrCmd_only_if
    [of "(keyOnlyCombo ''k'')\<lparr>ctrlOrCmd := Some True\<rparr>" toLowerCase
      "keyEvent ''k'' False True False False"]
  by (simp add: example_defs isKeyComboMatch_iff)

section \<open>The plain branch\<close>

text \<open>
  Claim C2. For a combo whose \<^verbatim>\<open>ctrlOrCmd\<close> is unset or false, the matcher returns
  true exactly when the key-label test passes (there is none when the combo has no key)
  and each of the event's four modifier flags equals the combo's flag of the same name,
  an absent flag counting as false.
\<close>

theorem isKeyComboMatch_plain_iff:
  assumes "ctrlOrCmd combo = None \<or> ctrlOrCmd combo = Some False"
  shows "isKeyComboMatch lower ev combo onMac \<longleftrightarrow>
           (case key combo of
              None \<Rightarrow> True
            | Some k \<Rightarrow>
                if ev_shiftKey ev then lower (ev_key ev) = lower k else ev_key ev = k)
           \<and> ev_metaKey ev = nullish (metaKey combo) False
           \<and> ev_ctrlKey ev = nullish (ctrlKey combo) False
           \<and> ev_altKey ev = nullish (altKey combo) False
           \<and> ev_shiftKey ev = nullish (shiftKey combo) False"
  using assms by (auto simp add: isKeyComboMatch_iff)

text \<open>
  The combo \<^verbatim>\<open>{key:'k', altKey:true, ctrlOrCmd:false}\<close> matches Alt+k and does not
  match Alt+Ctrl+k.
\<close>

theorem isKeyComboMatch_plain_iff_witness:
  "(ctrlOrCmd ((keyOnlyCombo ''k'')\<lparr>ctrlOrCmd := Some False, altKey := Some True\<rparr>) = None
      \<or> ctrlOrCmd ((keyOnlyCombo ''k'')\<lparr>ctrlOrCmd := Some False, altKey := Some True\<rparr>)
          = Some False)
   \<and> isKeyComboMatch toLowerCase (keyEvent ''k'' True False False False)
        ((keyOnlyCombo ''k'')\<lparr>ctrlOrCmd := Some False, altKey := Some True\<rparr>) False
   \<and> \<not> isKeyComboMatch toLowerCase (keyEvent ''k'' True True False False)
        ((keyOnlyCombo ''k'')\<lparr>ctrlOrCmd := Some False, altKey := Some True\<rparr>) False"
  using
    isKeyComboMatch_plain_iff
      [of "(keyOnlyCombo ''k'')\<lparr>ctrlOrCmd := Some False, altKey := Some True\<rparr>"
        toLowerCase "keyEvent ''k'' True False False False" False]
    isKeyComboMatch_plain_iff
      [of "(keyOnlyCombo ''k'')\<lparr>ctrlOrCmd := Some False, altKey := Some True\<rparr>"
        toLowerCase "keyEvent ''k'' True True False False" False]
  by (simp add: example_defs)

section \<open>The key-label test\<close>

text \<open>
  Claim C3. For a combo with a key, the key-label part of the matcher compares the
  event's label with the combo's key after lower-casing both when the event's shift
  modifier is active, and by plain string equality when it is not; when that comparison
  fails the matcher returns false. The first conjunct says more: the result is the
  comparison together with the result for the same combo without its key, so the label
  enters the result through this comparison only.
\<close>

theorem isKeyComboMatch_key_label_test:
  assumes "key combo = Some k"
  shows "(isKeyComboMatch lower ev combo onMac \<longleftrightarrow>
            (if ev_shiftKey ev then lower (ev_key ev) = lower k else ev_key ev = k)
            \<and> isKeyComboMatch lower ev (combo\<lparr>key := None\<rparr>) onMac)
       \<and> (ev_shiftKey ev \<and> lower (ev_key ev) \<noteq> lower k
            \<longrightarrow> \<not> isKeyComboMatch lower ev combo onMac)
       \<and> (\<not> ev_shiftKey ev \<and> ev_key ev \<noteq> k
            \<longrightarrow> \<not> isKeyComboMatch lower ev combo onMac)"
  using isKeyComboMatch_split_key [OF assms, of lower ev onMac] by auto

text \<open>
  The combo \<^verbatim>\<open>{key:'k', shiftKey:true}\<close> matches the shifted label \<^verbatim>\<open>K\<close>; the combo
  \<^verbatim>\<open>{key:'k'}\<close> does not match the unshifted label \<^verbatim>\<open>K\<close>.
\<close>

theorem isKeyComboMatch_key_label_test_witness:
  "key ((keyOnlyCombo ''k'')\<lparr>shiftKey := Some True\<rparr>) = Some ''k''
   \<and> key (keyOnlyCombo ''k'') = Some ''k''
   \<and> isKeyComboMatch toLowerCase (keyEvent ''K'' False False False True)
        ((keyOnlyCombo ''k'')\<lparr>shiftKey := Some True\<rparr>) False
   \<and> \<not> isKeyComboMatch toLowerCase (keyEvent ''K'' False False False False)
        (keyOnlyCombo ''k'') False"
  using
    isKeyComboMatch_key_label_test
      [of "(keyOnlyCombo ''k'')\<lparr>shiftKey := Some True\<rparr>" "''k''" toLowerCase
        "keyEvent ''K'' False False False True" False]
    isKeyComboMatch_key_label_test
      [of "keyOnlyCombo ''k''" "''k''" toLowerCase
        "keyEvent ''K'' False False False False" False]
  by (simp add: example_defs toLowerCase_examples isKeyComboMatch_no_key)

section \<open>The combo's own ctrlKey and metaKey under ctrlOrCmd\<close>

text \<open>
  Claim C7 says that under \<^verbatim>\<open>ctrlOrCmd\<close> the combo's own \<^verbatim>\<open>ctrlKey\<close> and
  \<^verbatim>\<open>metaKey\<close> are ignored, so that on a Mac the event's ctrl flag has to be false and
  elsewhere the event's meta flag has to be false, whatever the combo says. The source
  compares \<^verbatim>\<open>ev.ctrlKey !== comboCtrl\<close> on a Mac and \<^verbatim>\<open>ev.metaKey !== comboMeta\<close>
  elsewhere: the combo \<^verbatim>\<open>{key:'k', ctrlOrCmd:true, ctrlKey:true}\<close> matches
  Cmd+Ctrl+k on a Mac, an event whose ctrl flag is true, and does not match Cmd+k.
\<close>

theorem isKeyComboMatch_ctrlOrCmd_ctrlKey_not_ignored:
  "ctrlOrCmd ((keyOnlyCombo ''k'')\<lparr>ctrlOrCmd := Some True, ctrlKey := Some True\<rparr>) = Some True
   \<and> ev_ctrlKey (keyEvent ''k'' False True True False)
   \<and> isKeyComboMatch toLowerCase (keyEvent ''k'' False True True False)
        ((keyOnlyCombo ''k'')\<lparr>ctrlOrCmd := Some True, ctrlKey := Some True\<rparr>) True
   \<and> \<not> isKeyComboMatch toLowerCase (keyEvent ''k'' False False True False)
        ((keyOnlyCombo ''k'')\<lparr>ctrlOrCmd := Some True, ctrlKey := Some True\<rparr>) True"
  by (simp add: example_defs isKeyComboMatch_iff)

text \<open>
  Claim C7, amended. For a combo with \<^verbatim>\<open>ctrlOrCmd\<close> set true, what is ignored is the
  combo's flag for the platform's primary modifier: on a Mac the result does not depend
  on the combo's \<^verbatim>\<open>metaKey\<close>, elsewhere it does not depend on the combo's
  \<^verbatim>\<open>ctrlKey\<close>. The other modifier is compared with the combo's own flag: a match on a
  Mac requires the event's ctrl flag to equal the combo's \<^verbatim>\<open>ctrlKey\<close>, a match
  elsewhere requires the event's meta flag to equal the combo's \<^verbatim>\<open>metaKey\<close> (absent
  counts as false), so that flag is required to be false only when the combo leaves it
  absent or false.
\<close>

theorem isKeyComboMatch_ctrlOrCmd_own_flags:
  assumes "ctrlOrCmd combo = Some True"
  shows "isKeyComboMatch lower ev (combo\<lparr>metaKey := m\<rparr>) True
           = isKeyComboMatch lower ev combo True
       \<and> isKeyComboMatch lower ev (combo\<lparr>ctrlKey := c\<rparr>) False
           = isKeyComboMatch lower ev combo False
       \<and> (isKeyComboMatch lower ev combo True
            \<longrightarrow> ev_ctrlKey ev = nullish (ctrlKey combo) False)
       \<and> (isKeyComboMatch lower ev combo False
            \<longrightarrow> ev_metaKey ev = nullish (metaKey combo) False)"
  using assms by (simp add: isKeyComboMatch_iff)

theorem isKeyComboMatch_ctrlOrCmd_own_flags_witness:
  "ctrlOrCmd ((keyOnlyCombo ''k'')\<lparr>ctrlOrCmd := Some True, ctrlKey := Some True\<rparr>) = Some True
   \<and> isKeyComboMatch toLowerCase (keyEvent ''k'' False True True False)
        ((keyOnlyCombo ''k'')\<lparr>ctrlOrCmd := Some True, ctrlKey := Some True\<rparr>) True
   \<and> isKeyComboMatch toLowerCase (keyEvent ''k'' False True True False)
        ((keyOnlyCombo ''k'')
           \<lparr>ctrlOrCmd := Some True, ctrlKey := Some True, metaKey := Some False\<rparr>) True
   \<and> ev_ctrlKey (keyEvent ''k'' False True True False)
        = nullish (ctrlKey ((keyOnlyCombo ''k'')
            \<lparr>ctrlOrCmd := Some True, ctrlKey := Some True\<rparr>)) False"
  using isKeyComboMatch_ctrlOrCmd_own_flags
    [of "(keyOnlyCombo ''k'')\<lparr>ctrlOrCmd := Some True, ctrlKey := Some True\<rparr>"
      toLowerCase "keyEvent ''k'' False True True False" "Some False" None]
  by (simp add: example_defs isKeyComboMatch_iff)

section \<open>Shifted events\<close>

text \<open>
  Claim C8 says that a combo with only its key set matches a shifted event exactly when
  the labels agree after lower-casing. The combo \<^verbatim>\<open>{key:'a'}\<close> and the event
  Shift+A have labels that agree after lower-casing, and the matcher returns false: the
  event's shift flag differs from the combo's absent \<^verbatim>\<open>shiftKey\<close>.
\<close>

theorem keyOnlyCombo_rejects_shifted_label:
  "ev_shiftKey (keyEvent ''A'' False False False True)
   \<and> toLowerCase (ev_key (keyEvent ''A'' False False False True)) = toLowerCase ''a''
   \<and> \<not> isKeyComboMatch toLowerCase (keyEvent ''A'' False False False True)
        (keyOnlyCombo ''a'') False
   \<and> \<not> isKeyComboMatch toLowerCase (keyEvent ''A'' False False False True)
        (keyOnlyCombo ''a'') True"
  by (simp add: example_defs toLowerCase_examples isKeyComboMatch_iff)

text \<open>
  Claim C8, amended. A combo in which only the key is set never matches an event whose
  shift modifier is active. A combo in which only the key and \<^verbatim>\<open>shiftKey: true\<close> are
  set matches such an event exactly when the labels agree after lower-casing and the
  event's meta, ctrl and alt modifiers are inactive.
\<close>

theorem isKeyComboMatch_key_only_shifted:
  assumes "ev_shiftKey ev"
  shows "\<not> isKeyComboMatch lower ev (keyOnlyCombo k) onMac
       \<and> (isKeyComboMatch lower ev ((keyOnlyCombo k)\<lparr>shiftKey := Some True\<rparr>) onMac
            \<longleftrightarrow> lower (ev_key ev) = lower k
                 \<and> \<not> ev_metaKey ev \<and> \<not> ev_ctrlKey ev \<and> \<not> ev_altKey ev)"
  using assms by (simp add: example_defs isKeyComboMatch_iff)

theorem isKeyComboMatch_key_only_shifted_witness:
  "ev_shiftKey (keyEvent ''A'' False False False True)
   \<and> \<not> isKeyComboMatch toLowerCase (keyEvent ''A'' False False False True)
        (keyOnlyCombo ''a'') False
   \<and> isKeyComboMatch toLowerCase (keyEvent ''A'' False False False True)
        ((keyOnlyCombo ''a'')\<lparr>shiftKey := Some True\<rparr>) False"
  using isKeyComboMatch_key_only_shifted
    [of "keyEvent ''A'' False False False True" toLowerCase "''a''" False]
  by (simp add: keyEvent_def toLowerCase_examples)

text \<open>
  Claim C9. The lenient label comparison under shift does not relax the comparison of
  the modifier flags: a combo whose \<^verbatim>\<open>shiftKey\<close> is absent or false matches no event
  whose shift modifier is active, whatever the labels. In particular the combo
  \<^verbatim>\<open>{key:'Escape'}\<close> does not match an event with label \<^verbatim>\<open>Escape\<close> and shift held,
  whatever its other modifiers and whatever the platform.
\<close>

theorem isKeyComboMatch_shift_not_relaxed:
  "((shiftKey combo = None \<or> shiftKey combo = Some False) \<and> ev_shiftKey ev
      \<longrightarrow> \<not> isKeyComboMatch lower ev combo onMac)
   \<and> \<not> isKeyComboMatch lower (keyEvent ''Escape'' alt ctrl meta True)
         (keyOnlyCombo ''Escape'') onMac"
proof (intro conjI impI)
  assume "(shiftKey combo = None \<or> shiftKey combo = Some False) \<and> ev_shiftKey ev"
  then have "ev_shiftKey ev \<noteq> nullish (shiftKey combo) False" by auto
  then show "\<not> isKeyComboMatch lower ev combo onMac"
    by (simp add: isKeyComboMatch_iff)
next
  have "shiftKey (keyOnlyCombo ''Escape'') = None"
    by (simp add: example_defs)
  moreover have "ev_shiftKey (keyEvent ''Escape'' alt ctrl meta True)"
    by (simp add: keyEvent_def)
  ultimately show "\<not> isKeyComboMatch lower (keyEvent ''Escape'' alt ctrl meta True)
      (keyOnlyCombo ''Escape'') onMac"
    by (simp add: isKeyComboMatch_iff)
qed

text \<open>
  The combo \<^verbatim>\<open>{key:'a', shiftKey:false}\<close> and the event Shift+A: the labels agree
  after lower-casing and the event is not matched.
\<close>

theorem isKeyComboMatch_shift_not_relaxed_witness:
  "(shiftKey ((keyOnlyCombo ''a'')\<lparr>shiftKey := Some False\<rparr>) = None
      \<or> shiftKey ((keyOnlyCombo ''a'')\<lparr>shiftKey := Some False\<rparr>) = Some False)
   \<and> ev_shiftKey (keyEvent ''A'' False False False True)
   \<and> toLowerCase (ev_key (keyEvent ''A'' False False False True)) = toLowerCase ''a''
   \<and> \<not> isKeyComboMatch toLowerCase (keyEvent ''A'' False False False True)
        ((keyOnlyCombo ''a'')\<lparr>shiftKey := Some False\<rparr>) False"
  using isKeyComboMatch_shift_not_relaxed
    [where combo = "(keyOnlyCombo ''a'')\<lparr>shiftKey := Some False\<rparr>"
       and ev = "keyEvent ''A'' False False False True"
       and lower = toLowerCase and onMac = False]
  by (simp add: example_defs toLowerCase_examples)

section \<open>Combos without a key\<close>

text \<open>
  Claim C10. For a combo whose key is undefined the result does not depend on the
  event's key label: two events that agree on the four modifier flags get the same
  result, whatever their labels. So the combo \<^verbatim>\<open>{ctrlKey:true}\<close> matches every key
  pressed with exactly Ctrl held, and only those events.
\<close>

theorem isKeyComboMatch_no_key_label_independent:
  "(key combo = None
      \<and> ev_metaKey ev = ev_metaKey ev' \<and> ev_ctrlKey ev = ev_ctrlKey ev'
      \<and> ev_altKey ev = ev_altKey ev' \<and> ev_shiftKey ev = ev_shiftKey ev'
      \<longrightarrow> isKeyComboMatch lower ev combo onMac = isKeyComboMatch lower ev' combo onMac)
   \<and> (isKeyComboMatch lower (keyEvent label alt ctrl meta shift)
         (emptyCombo\<lparr>ctrlKey := Some True\<rparr>) onMac
        \<longleftrightarrow> ctrl \<and> \<not> alt \<and> \<not> meta \<and> \<not> shift)"
proof (intro conjI impI)
  assume same: "key combo = None
      \<and> ev_metaKey ev = ev_metaKey ev' \<and> ev_ctrlKey ev = ev_ctrlKey ev'
      \<and> ev_altKey ev = ev_altKey ev' \<and> ev_shiftKey ev = ev_shiftKey ev'"
  then have "key combo = None" by simp
  from isKeyComboMatch_no_key [OF this, of lower ev onMac]
    isKeyComboMatch_no_key [OF this, of lower ev' onMac] same
  show "isKeyComboMatch lower ev combo onMac = isKeyComboMatch lower ev' combo onMac"
    by simp
next
  have "key (emptyCombo\<lparr>ctrlKey := Some True\<rparr>) = None"
    by (simp add: emptyCombo_def)
  from isKeyComboMatch_no_key [OF this, of lower "keyEvent label alt ctrl meta shift" onMac]
  show "isKeyComboMatch lower (keyEvent label alt ctrl meta shift)
      (emptyCombo\<lparr>ctrlKey := Some True\<rparr>) onMac
      \<longleftrightarrow> ctrl \<and> \<not> alt \<and> \<not> meta \<and> \<not> shift"
    by (auto simp add: example_defs)
qed

text \<open>The combo \<^verbatim>\<open>{ctrlKey:true}\<close> matches Ctrl+a and Ctrl+Escape alike.\<close>

theorem isKeyComboMatch_no_key_label_independent_witness:
  "key (emptyCombo\<lparr>ctrlKey := Some True\<rparr>) = None
   \<and> ev_key (keyEvent ''a'' False True False False)
        \<noteq> ev_key (keyEvent ''Escape'' False True False False)
   \<and> isKeyComboMatch toLowerCase (keyEvent ''a'' False True False False)
        (emptyCombo\<lparr>ctrlKey := Some True\<rparr>) False
   \<and> isKeyComboMatch toLowerCase (keyEvent ''Escape'' False True False False)
        (emptyCombo\<lparr>ctrlKey := Some True\<rparr>) False"
  using isKeyComboMatch_no_key_label_independent
    [where combo = "emptyCombo\<lparr>ctrlKey := Some True\<rparr>"
       and ev = "keyEvent ''a'' False True False False"
       and ev' = "keyEvent ''Escape'' False True False False"
       and lower = toLowerCase and onMac = False
       and label = "''a''" and alt = False and ctrl = True and meta = False
       and shift = False]
  by (simp add: example_defs isKeyComboMatch_no_key)

section \<open>Basic facts about the resolver\<close>

lemma getAction_None_iff:
  "getAction lower isMac getters ev = None \<longleftrightarrow>
     (\<forall>getter \<in> set getters. \<forall>b \<in> set (getter ()).
        \<not> isKeyComboMatch lower ev (keyCombo b) isMac)"
proof (induction getters)
  case Nil
  show ?case by simp
next
  case (Cons getter getters)
  show ?case
  proof (cases "find (\<lambda>it. isKeyComboMatch lower ev (keyCombo it) isMac) (getter ())")
    case None
    then have "\<forall>b \<in> set (getter ()). \<not> isKeyComboMatch lower ev (keyCombo b) isMac"
      by (simp add: find_None_iff)
    with None Cons.IH show ?thesis by simp
  next
    case (Some binding)
    then have "binding \<in> set (getter ())"
        "isKeyComboMatch lower ev (keyCombo binding) isMac"
      by (auto simp add: find_Some_iff)
    with Some show ?thesis by auto
  qed
qed

text \<open>Providers without a matching binding are passed over.\<close>

lemma getAction_skip_unmatched:
  assumes "\<forall>getter \<in> set earlier. \<forall>b \<in> set (getter ()).
             \<not> isKeyComboMatch lower ev (keyCombo b) isMac"
  shows "getAction lower isMac (earlier @ getters) ev = getAction lower isMac getters ev"
  using assms
proof (induction earlier)
  case Nil
  show ?case by simp
next
  case (Cons getter earlier)
  then have "find (\<lambda>it. isKeyComboMatch lower ev (keyCombo it) isMac) (getter ()) = None"
    by (simp add: find_None_iff)
  with Cons show ?case by simp
qed

text \<open>The first binding of a list that satisfies a test, by position.\<close>

lemma first_position:
  assumes "i < length xs" and "P (xs ! i)"
  shows "\<exists>k\<le>i. P (xs ! k) \<and> (\<forall>m<k. \<not> P (xs ! m))"
proof -
  define k where "k = (LEAST n. P (xs ! n))"
  have "P (xs ! k)" unfolding k_def using assms(2) by (rule LeastI)
  moreover have "k \<le> i" unfolding k_def using assms(2) by (rule Least_le)
  moreover have "\<forall>m<k. \<not> P (xs ! m)" unfolding k_def using not_less_Least by blast
  ultimately show ?thesis by blast
qed

text \<open>The resolver answers with the first matching binding of its first provider.\<close>

lemma getAction_head:
  assumes "k < length (getter ())"
    and "isKeyComboMatch lower ev (keyCombo (getter () ! k)) isMac"
    and "\<forall>m<k. \<not> isKeyComboMatch lower ev (keyCombo (getter () ! m)) isMac"
  shows "getAction lower isMac (getter # getters) ev = Some (action (getter () ! k))"
proof -
  have "find (\<lambda>it. isKeyComboMatch lower ev (keyCombo it) isMac) (getter ())
          = Some (getter () ! k)"
    using assms by (auto simp add: find_Some_iff)
  then show ?thesis by simp
qed

lemmas provider_defs =
  firstProvider_def secondProvider_def thirdProvider_def otherProvider_def
  doubleProvider_def tripleProvider_def navigationProvider_def navBinding_def comboCtrlOrCmdK_def
  eventCtrlK_def

section \<open>Precedence across providers\<close>

text \<open>
  In what follows \<open>getBindings\<close> stands for the getter of one UI context: each of
  \<open>getMessageComposerAction\<close>, \<open>getAutocompleteAction\<close>, \<open>getRoomListAction\<close>,
  \<open>getRoomAction\<close> and \<open>getNavigationAction\<close> is \<open>getAction\<close> on the providers of the
  manager mapped through the getter of its context.
\<close>

text \<open>
  Claim C4 says that of any two providers that both hold a matching binding the
  resolver returns the action of the earlier one. With three providers that all bind
  Ctrl+k in the navigation context, the second and the third both hold a matching
  binding and the second is the earlier of the two, yet the resolver returns the action
  of the first provider, which is not the action of the second.
\<close>

theorem getNavigationAction_three_providers:
  "getNavigationBindings secondProvider () = [navBinding GoToHome comboCtrlOrCmdK]
   \<and> getNavigationBindings thirdProvider () = [navBinding ToggleShortCutDialog comboCtrlOrCmdK]
   \<and> isKeyComboMatch toLowerCase eventCtrlK
        (keyCombo (navBinding GoToHome comboCtrlOrCmdK)) False
   \<and> isKeyComboMatch toLowerCase eventCtrlK
        (keyCombo (navBinding ToggleShortCutDialog comboCtrlOrCmdK)) False
   \<and> getNavigationAction toLowerCase False
        \<lparr>bindingsProviders = [firstProvider, secondProvider, thirdProvider]\<rparr> eventCtrlK
        = Some ToggleUserMenu
   \<and> getNavigationAction toLowerCase False
        \<lparr>bindingsProviders = [firstProvider, secondProvider, thirdProvider]\<rparr> eventCtrlK
        \<noteq> Some (action (navBinding GoToHome comboCtrlOrCmdK))"
  by (simp add: getNavigationAction_def provider_defs example_defs isKeyComboMatch_iff)

text \<open>
  Claim C4, amended. Let P1 come before P2 in the manager's provider sequence, let both
  hold a binding for the context whose combo matches the event, and let no provider
  before P1 hold such a binding. Then the resolver returns the action of the first
  matching binding of P1's list.
\<close>

theorem getAction_provider_precedence:
  assumes "providers = earlier @ P1 # between @ P2 # later"
    and "\<forall>P \<in> set earlier. \<forall>b \<in> set (getBindings P ()).
           \<not> isKeyComboMatch lower ev (keyCombo b) isMac"
    and "\<exists>b \<in> set (getBindings P1 ()). isKeyComboMatch lower ev (keyCombo b) isMac"
    and "\<exists>b \<in> set (getBindings P2 ()). isKeyComboMatch lower ev (keyCombo b) isMac"
  shows "\<exists>k<length (getBindings P1 ()).
           isKeyComboMatch lower ev (keyCombo (getBindings P1 () ! k)) isMac
           \<and> (\<forall>m<k. \<not> isKeyComboMatch lower ev (keyCombo (getBindings P1 () ! m)) isMac)
           \<and> getAction lower isMac (map getBindings providers) ev
               = Some (action (getBindings P1 () ! k))"
proof -
  let ?match = "\<lambda>b. isKeyComboMatch lower ev (keyCombo b) isMac"
  from assms(3) obtain i where i: "i < length (getBindings P1 ())"
      "?match (getBindings P1 () ! i)"
    by (auto simp add: in_set_conv_nth)
  from first_position [of i "getBindings P1 ()" ?match, OF i]
  obtain k where k: "k \<le> i" "?match (getBindings P1 () ! k)"
      "\<forall>m<k. \<not> ?match (getBindings P1 () ! m)"
    by blast
  from k(1) i(1) have len: "k < length (getBindings P1 ())" by simp
  have "getAction lower isMac (map getBindings providers) ev
          = getAction lower isMac
              (map getBindings earlier @ getBindings P1 # map getBindings (between @ P2 # later)) ev"
    by (simp add: assms(1))
  also have "\<dots> = getAction lower isMac
              (getBindings P1 # map getBindings (between @ P2 # later)) ev"
    by (rule getAction_skip_unmatched) (use assms(2) in auto)
  also have "\<dots> = Some (action (getBindings P1 () ! k))"
    using len k(2,3) by (rule getAction_head)
  finally show ?thesis using len k(2,3) by blast
qed

text \<open>
  A provider for another key first, then two providers that bind Ctrl+k: the action of
  the earlier of the two is returned.
\<close>

theorem getAction_provider_precedence_witness:
  "getNavigationBindings otherProvider ()
       = [navBinding ToggleRoomSidePanel (keyOnlyCombo ''j'')]
   \<and> \<not> isKeyComboMatch toLowerCase eventCtrlK
         (keyCombo (navBinding ToggleRoomSidePanel (keyOnlyCombo ''j''))) False
   \<and> (\<exists>b \<in> set (getNavigationBindings secondProvider ()).
         isKeyComboMatch toLowerCase eventCtrlK (keyCombo b) False)
   \<and> (\<exists>b \<in> set (getNavigationBindings thirdProvider ()).
         isKeyComboMatch toLowerCase eventCtrlK (keyCombo b) False)
   \<and> getNavigationAction toLowerCase False
        \<lparr>bindingsProviders = [otherProvider, secondProvider, thirdProvider]\<rparr> eventCtrlK
        = Some GoToHome"
  using getAction_provider_precedence
    [where providers = "[otherProvider, secondProvider, thirdProvider]"
       and earlier = "[otherProvider]" and ?P1.0 = secondProvider and between = "[]"
       and ?P2.0 = thirdProvider and later = "[]"
       and getBindings = getNavigationBindings and lower = toLowerCase
       and ev = eventCtrlK and isMac = False]
  by (simp add: getNavigationAction_def provider_defs example_defs isKeyComboMatch_iff)

section \<open>Order within a provider\<close>

text \<open>
  Claim C5 says that when two bindings of a provider's list both match the event, the
  resolver returns the action of the one that comes first in the list. Two inputs show
  what is missing. With \<open>thirdProvider\<close> before \<open>doubleProvider\<close>, the bindings at
  positions 1 and 2 of \<open>doubleProvider\<close>'s list both match Ctrl+k, yet the resolver
  returns the action of \<open>thirdProvider\<close>, which is the action of neither: the loop
  returns at the first provider that has a match and never reaches the list. With
  \<open>tripleProvider\<close> alone, the bindings at positions 1 and 2 both match, yet the action
  at position 0 is returned, not the action of the earlier of the two.
\<close>

theorem getNavigationAction_list_not_reached:
  "getNavigationBindings doubleProvider () ! 1 = navBinding GoToHome comboCtrlOrCmdK
   \<and> getNavigationBindings doubleProvider () ! 2
        = navBinding ToggleUserMenu ((keyOnlyCombo ''k'')\<lparr>ctrlKey := Some True\<rparr>)
   \<and> isKeyComboMatch toLowerCase eventCtrlK
        (keyCombo (getNavigationBindings doubleProvider () ! 1)) False
   \<and> isKeyComboMatch toLowerCase eventCtrlK
        (keyCombo (getNavigationBindings doubleProvider () ! 2)) False
   \<and> getNavigationAction toLowerCase False
        \<lparr>bindingsProviders = [thirdProvider, doubleProvider]\<rparr> eventCtrlK
        = Some ToggleShortCutDialog
   \<and> getNavigationAction toLowerCase False
        \<lparr>bindingsProviders = [thirdProvider, doubleProvider]\<rparr> eventCtrlK
        \<noteq> Some (action (getNavigationBindings doubleProvider () ! 1))
   \<and> isKeyComboMatch toLowerCase eventCtrlK
        (keyCombo (getNavigationBindings tripleProvider () ! 1)) False
   \<and> isKeyComboMatch toLowerCase eventCtrlK
        (keyCombo (getNavigationBindings tripleProvider () ! 2)) False
   \<and> getNavigationAction toLowerCase False
        \<lparr>bindingsProviders = [tripleProvider]\<rparr> eventCtrlK
        = Some ToggleShortCutDialog
   \<and> getNavigationAction toLowerCase False
        \<lparr>bindingsProviders = [tripleProvider]\<rparr> eventCtrlK
        \<noteq> Some (action (getNavigationBindings tripleProvider () ! 1))"
  by (simp add: getNavigationAction_def provider_defs example_defs isKeyComboMatch_iff)

text \<open>
  Claim C5, amended. Let a provider stand anywhere in the manager's provider sequence,
  let two bindings of its list for the context both match the event, and let no
  provider before it hold a matching binding for the context. Then the resolver returns
  the action of the first binding of that list whose combo matches; that binding stands
  no later than the earlier of the two, and it is the earlier of the two when no binding
  before that one matches. Providers after it play no part.
\<close>

theorem getAction_first_listed_binding:
  assumes "providers = earlier @ P # later"
    and "\<forall>Q \<in> set earlier. \<forall>b \<in> set (getBindings Q ()).
           \<not> isKeyComboMatch lower ev (keyCombo b) isMac"
    and "i < j" and "j < length (getBindings P ())"
    and "isKeyComboMatch lower ev (keyCombo (getBindings P () ! i)) isMac"
    and "isKeyComboMatch lower ev (keyCombo (getBindings P () ! j)) isMac"
  shows "(\<exists>k\<le>i.
            isKeyComboMatch lower ev (keyCombo (getBindings P () ! k)) isMac
            \<and> (\<forall>m<k. \<not> isKeyComboMatch lower ev (keyCombo (getBindings P () ! m)) isMac)
            \<and> getAction lower isMac (map getBindings providers) ev
                = Some (action (getBindings P () ! k)))
       \<and> ((\<forall>m<i. \<not> isKeyComboMatch lower ev (keyCombo (getBindings P () ! m)) isMac)
            \<longrightarrow> getAction lower isMac (map getBindings providers) ev
                  = Some (action (getBindings P () ! i)))"
proof
  let ?match = "\<lambda>b. isKeyComboMatch lower ev (keyCombo b) isMac"
  let ?list = "getBindings P ()"
  have reach: "getAction lower isMac (map getBindings providers) ev
      = getAction lower isMac (getBindings P # map getBindings later) ev"
  proof -
    have "getAction lower isMac (map getBindings providers) ev
        = getAction lower isMac
            (map getBindings earlier @ getBindings P # map getBindings later) ev"
      by (simp add: assms(1))
    also have "\<dots> = getAction lower isMac (getBindings P # map getBindings later) ev"
      by (rule getAction_skip_unmatched) (use assms(2) in auto)
    finally show ?thesis .
  qed
  from assms(3,4) have i: "i < length ?list" by simp
  from first_position [of i ?list ?match, OF i assms(5)]
  obtain k where k: "k \<le> i" "?match (?list ! k)" "\<forall>m<k. \<not> ?match (?list ! m)"
    by blast
  from k(1) i have "k < length ?list" by simp
  then have "getAction lower isMac (getBindings P # map getBindings later) ev
      = Some (action (?list ! k))"
    using k(2,3) by (rule getAction_head)
  with reach k
  show "\<exists>k\<le>i. ?match (?list ! k) \<and> (\<forall>m<k. \<not> ?match (?list ! m))
      \<and> getAction lower isMac (map getBindings providers) ev = Some (action (?list ! k))"
    by auto
  show "(\<forall>m<i. \<not> ?match (?list ! m))
      \<longrightarrow> getAction lower isMac (map getBindings providers) ev = Some (action (?list ! i))"
  proof
    assume "\<forall>m<i. \<not> ?match (?list ! m)"
    with i assms(5)
    have "getAction lower isMac (getBindings P # map getBindings later) ev
        = Some (action (?list ! i))"
      by (rule getAction_head)
    with reach
    show "getAction lower isMac (map getBindings providers) ev = Some (action (?list ! i))"
      by simp
  qed
qed

text \<open>
  \<open>otherProvider\<close>, which has no binding for Ctrl+k, then \<open>doubleProvider\<close>, then
  \<open>firstProvider\<close>: the bindings at positions 1 and 2 of \<open>doubleProvider\<close>'s list both
  match, the one at position 0 does not, and the action at position 1 is returned.
\<close>

theorem getAction_first_listed_binding_witness:
  "\<not> isKeyComboMatch toLowerCase eventCtrlK
       (keyCombo (navBinding ToggleRoomSidePanel (keyOnlyCombo ''j''))) False
   \<and> getNavigationBindings otherProvider ()
        = [navBinding ToggleRoomSidePanel (keyOnlyCombo ''j'')]
   \<and> (1::nat) < 2 \<and> 2 < length (getNavigationBindings doubleProvider ())
   \<and> isKeyComboMatch toLowerCase eventCtrlK
        (keyCombo (getNavigationBindings doubleProvider () ! 1)) False
   \<and> isKeyComboMatch toLowerCase eventCtrlK
        (keyCombo (getNavigationBindings doubleProvider () ! 2)) False
   \<and> \<not> isKeyComboMatch toLowerCase eventCtrlK
        (keyCombo (getNavigationBindings doubleProvider () ! 0)) False
   \<and> action (getNavigationBindings doubleProvider () ! 1) = GoToHome
   \<and> getNavigationAction toLowerCase False
        \<lparr>bindingsProviders = [otherProvider, doubleProvider, firstProvider]\<rparr> eventCtrlK
        = Some GoToHome"
  using getAction_first_listed_binding
    [where providers = "[otherProvider, doubleProvider, firstProvider]"
       and earlier = "[otherProvider]" and P = doubleProvider
       and later = "[firstProvider]" and getBindings = getNavigationBindings
       and i = 1 and j = 2
       and lower = toLowerCase and ev = eventCtrlK and isMac = False]
  by (simp add: getNavigationAction_def provider_defs example_defs isKeyComboMatch_iff)

section \<open>No match\<close>

text \<open>
  Claim C6. The resolver returns \<open>None\<close>, the model of \<^verbatim>\<open>undefined\<close>, which is no action
  value, exactly when no binding in any provider's list for the context has a combo that
  matches the event; otherwise it returns some action.
\<close>

theorem getAction_no_match_iff:
  "(getAction lower isMac (map getBindings providers) ev = None \<longleftrightarrow>
      (\<forall>P \<in> set providers. \<forall>b \<in> set (getBindings P ()).
         \<not> isKeyComboMatch lower ev (keyCombo b) isMac))
   \<and> ((\<exists>a. getAction lower isMac (map getBindings providers) ev = Some a) \<longleftrightarrow>
      (\<exists>P \<in> set providers. \<exists>b \<in> set (getBindings P ()).
         isKeyComboMatch lower ev (keyCombo b) isMac))"
proof -
  have none: "getAction lower isMac (map getBindings providers) ev = None \<longleftrightarrow>
      (\<forall>P \<in> set providers. \<forall>b \<in> set (getBindings P ()).
         \<not> isKeyComboMatch lower ev (keyCombo b) isMac)"
    by (simp add: getAction_None_iff)
  have "(\<exists>a. getAction lower isMac (map getBindings providers) ev = Some a) \<longleftrightarrow>
      getAction lower isMac (map getBindings providers) ev \<noteq> None"
    by auto
  with none show ?thesis by blast
qed

text \<open>
  Two providers, one binding Ctrl+k (\<^verbatim>\<open>ctrlOrCmd\<close> outside a Mac) and one binding the
  bare key j: the event Ctrl+j matches neither binding and resolves to no action, the
  event Ctrl+k resolves to one.
\<close>

theorem getAction_no_match_iff_witness:
  "\<not> isKeyComboMatch toLowerCase (keyEvent ''j'' False True False False)
       (keyCombo (navBinding ToggleUserMenu comboCtrlOrCmdK)) False
   \<and> \<not> isKeyComboMatch toLowerCase (keyEvent ''j'' False True False False)
       (keyCombo (navBinding ToggleRoomSidePanel (keyOnlyCombo ''j''))) False
   \<and> getNavigationAction toLowerCase False
        \<lparr>bindingsProviders = [firstProvider, otherProvider]\<rparr>
        (keyEvent ''j'' False True False False) = None
   \<and> getNavigationAction toLowerCase False
        \<lparr>bindingsProviders = [firstProvider, otherProvider]\<rparr> eventCtrlK
        = Some ToggleUserMenu"
  using getAction_no_match_iff
    [where providers = "[firstProvider, otherProvider]"
       and getBindings = getNavigationBindings and lower = toLowerCase
       and ev = "keyEvent ''j'' False True False False" and isMac = False]
  by (simp add: getNavigationAction_def provider_defs example_defs isKeyComboMatch_iff)

end
